theory Spec2Isabelle
  imports Main "HOL-Library.Multiset"
begin

section \<open>The code block of the template engine\<close>

text \<open>
  A shallow embedding of \<^verbatim>\<open>semantic_kernel/template_engine/blocks/code_block.py\<close>:
  the validator \<^verbatim>\<open>CodeBlock.check_tokens\<close>, run when a code block is constructed, and
  the rendering methods \<^verbatim>\<open>render_code\<close>, \<^verbatim>\<open>_render_function_call\<close>,
  \<^verbatim>\<open>_enrich_function_arguments\<close> and \<^verbatim>\<open>_get_function_from_plugin_collection\<close>.
  Python names that start with an underscore lose it, since an Isabelle name starts with
  a letter.
\<close>

subsection \<open>Tokens\<close>

text \<open>
  The members of the enumeration \<^verbatim>\<open>BlockTypes\<close> that \<^verbatim>\<open>code_block.py\<close> names.
\<close>

datatype block_types = CODE | VARIABLE | VALUE | FUNCTION_ID | NAMED_ARG

text \<open>
  Modelled from the spec: the block classes \<^verbatim>\<open>ValBlock\<close>, \<^verbatim>\<open>VarBlock\<close>,
  \<^verbatim>\<open>NamedArgBlock\<close> and \<^verbatim>\<open>FunctionIdBlock\<close> are not part of the sources at hand. A token is
  the spec's tagged variant: a value with its content, a variable with its name, a named
  argument with its name and an inner value or variable, or a function id with an
  optional plugin name and a function name. This agrees with the docstring of
  \<^verbatim>\<open>CodeBlock\<close>: the tokens "can be either a function_id, value, a variable or a named
  argument".
\<close>

datatype inner_token = InnerVal string | InnerVar string

datatype token =
    ValBlock string
  | VarBlock string
  | NamedArgBlock string inner_token
  | FunctionIdBlock "string option" string

text \<open>The attribute \<^verbatim>\<open>token.type\<close>.\<close>

fun block_type :: "token \<Rightarrow> block_types" where
  "block_type (ValBlock _) = VALUE"
| "block_type (VarBlock _) = VARIABLE"
| "block_type (NamedArgBlock _ _) = NAMED_ARG"
| "block_type (FunctionIdBlock _ _) = FUNCTION_ID"

definition VALID_ARG_TYPES :: "block_types list" where
  "VALID_ARG_TYPES = [VALUE, VARIABLE, NAMED_ARG]"

subsection \<open>Construction: \<^verbatim>\<open>check_tokens\<close>\<close>

text \<open>
  Every failure of the validator raises \<^verbatim>\<open>CodeBlockTokenError\<close>; the four raise
  statements differ in their message, and each message but the first quotes the type of
  the offending token. The constructors are named after the spec's four kinds:
  \<^item> \<open>EmptySequence\<close>: "The content should contain at least one token."
  \<^item> \<open>LeadingNamedArg\<close>: "The first token needs to be a function_id, value or variable, got: ..."
  \<^item> \<open>InvalidSecondToken\<close>: "Unexpected type for the second token type, should be variable,
    value or named_arg: ..."
  \<^item> \<open>ExpectedNamedArg\<close>: "Every argument for the function after the first has to be a
    named arg, instead: ..."
\<close>

datatype token_error =
    EmptySequence
  | LeadingNamedArg block_types
  | InvalidSecondToken block_types
  | ExpectedNamedArg block_types

text \<open>
  The one call of \<^verbatim>\<open>logger.warning\<close> in the validator: "The first token is a value or
  variable, but there are more tokens in the content, these will be ignored." The
  validator returns the warnings it logged beside the token list.
\<close>

datatype diagnostic = TrailingTokensIgnored

text \<open>
  The loop \<^verbatim>\<open>for index, token in enumerate(tokens)\<close>: \<open>index\<close> is the position of the
  head of the remaining tokens, \<open>tokens\<close> the whole list (read by \<^verbatim>\<open>len(tokens) > 1\<close> and
  returned when the loop ends).
\<close>

fun check_tokens_loop ::
  "nat \<Rightarrow> token list \<Rightarrow> token list \<Rightarrow> token_error + (token list \<times> diagnostic list)" where
  "check_tokens_loop index tokens [] = Inr (tokens, [])"
| "check_tokens_loop index tokens (token # rest) =
     (if index = 0 \<and> block_type token = NAMED_ARG then
        Inl (LeadingNamedArg (block_type token))
      else if index = 0 \<and> block_type token \<in> set [VALUE, VARIABLE] then
        Inr ([token], if length tokens > 1 then [TrailingTokensIgnored] else [])
      else if index = 1 \<and> block_type token \<notin> set VALID_ARG_TYPES then
        Inl (InvalidSecondToken (block_type token))
      else if index > 1 \<and> block_type token \<noteq> NAMED_ARG then
        Inl (ExpectedNamedArg (block_type token))
      else check_tokens_loop (index + 1) tokens rest)"

definition check_tokens ::
  "token list \<Rightarrow> token_error + (token list \<times> diagnostic list)" where
  "check_tokens tokens =
     (if tokens = [] then Inl EmptySequence else check_tokens_loop 0 tokens tokens)"

text \<open>
  A code block has its content and its tokens. Constructing one with the tokens given
  (\<^verbatim>\<open>parse_content\<close> then leaves the fields as they are) runs the field validator
  \<^verbatim>\<open>check_tokens\<close>, and the field \<^verbatim>\<open>tokens\<close> of the new object is what the validator
  returned; when the validator raises, no object is made.
\<close>

record code_block =
  content :: string
  tokens :: "token list"

definition new_code_block ::
  "string \<Rightarrow> token list \<Rightarrow> token_error + (code_block \<times> diagnostic list)" where
  "new_code_block c ts =
     (case check_tokens ts of
        Inl e \<Rightarrow> Inl e
      | Inr (ts', warnings) \<Rightarrow> Inr (\<lparr>content = c, tokens = ts'\<rparr>, warnings))"

subsection \<open>Bindings, functions and the registry\<close>

text \<open>
  Modelled from the spec: \<^verbatim>\<open>KernelArguments\<close> is not part of the sources at hand. The
  bindings are the spec's string-keyed map from a variable name to its current string
  value. A Python dictionary is an object that is passed by reference and updated in
  place, so the bindings live in a store: a list of dictionaries, a reference being an
  index into it. \<^verbatim>\<open>copy(arguments)\<close> allocates a new dictionary with the same entries.
\<close>

type_synonym kernel_arguments = "string \<rightharpoonup> string"

type_synonym store = "kernel_arguments list"

definition copy :: "store \<Rightarrow> nat \<Rightarrow> nat \<times> store" where
  "copy h r = (length h, h @ [h ! r])"

text \<open>
  Modelled from the spec: \<^verbatim>\<open>KernelFunctionMetadata\<close>, \<^verbatim>\<open>KernelFunction\<close> and
  \<^verbatim>\<open>FunctionResult\<close> are not part of the sources at hand. The descriptor is the spec's:
  plugin name, function name and the ordered list of the declared parameter names (the
  code reads \<^verbatim>\<open>parameters[0].name\<close>). An invocation result is a string payload, which
  may be absent, plus an optional embedded error (the entry \<^verbatim>\<open>"error"\<close> of the result's
  metadata, an exception object). A result is truthy when its payload is present and not
  empty, and its string form is the payload. A function is its descriptor and its
  \<^verbatim>\<open>invoke\<close>, which reads the bindings it is given; what else the invoked function does is
  outside this model.
\<close>

record kernel_function_metadata =
  name :: string
  plugin_name :: string
  parameters :: "string list"

datatype py_exception = PyException string

record function_result =
  payload :: "string option"
  embedded_error :: "py_exception option"

definition bool_of_result :: "function_result \<Rightarrow> bool" where
  "bool_of_result r = (case payload r of None \<Rightarrow> False | Some s \<Rightarrow> s \<noteq> [])"

definition str_of_result :: "function_result \<Rightarrow> string" where
  "str_of_result r = (case payload r of None \<Rightarrow> [] | Some s \<Rightarrow> s)"

record kernel_function =
  metadata :: kernel_function_metadata
  invoke :: "kernel_arguments \<Rightarrow> function_result"

text \<open>
  The failures of rendering. The first four are the raise statements of
  \<^verbatim>\<open>CodeBlockRenderError\<close>, named after the spec's kinds:
  \<^item> \<open>NoRegistry\<close>: "Plugin collection not set in kernel"
  \<^item> \<open>FunctionNotFound\<close>: "Function `...` not found", with the plugin name and the function
    name of the function id
  \<^item> \<open>ArityMismatch\<close>: "Function ... does not take any arguments but it is being called in
    the template with ... arguments.", with the descriptor and \<^verbatim>\<open>len(self.tokens) - 1\<close>
  \<^item> \<open>InvocationFailed\<close>: "Error rendering function: ... with error: ...", with the
    descriptor and the embedded error.
  The other four are Python's own exceptions. \<open>IndexError\<close> and \<open>AttributeError\<close> can
  arise only in a block that did not pass \<^verbatim>\<open>check_tokens\<close>: reading \<^verbatim>\<open>self.tokens[0]\<close> of
  an empty list, and reading an attribute that a token does not have. \<open>KeyError\<close> and
  \<open>TypeError\<close> can arise in a subscript of the registry.
\<close>

datatype render_error =
    NoRegistry
  | FunctionNotFound "string option" string
  | ArityMismatch kernel_function_metadata int
  | InvocationFailed kernel_function_metadata py_exception
  | IndexError
  | AttributeError
  | KeyError
  | TypeError

text \<open>
  Modelled from the spec: the \<^verbatim>\<open>render\<close> methods of the token classes are not part of
  the sources at hand. A value renders to its content; a variable renders to the binding
  of its name, the empty string when there is none; a named argument renders to the
  rendering of its inner token. The spec gives no rendering to a function id, and a block
  that passed \<^verbatim>\<open>check_tokens\<close> never asks for one: it is an error value here.
\<close>

fun render_inner :: "inner_token \<Rightarrow> kernel_arguments \<Rightarrow> string" where
  "render_inner (InnerVal c) arguments = c"
| "render_inner (InnerVar n) arguments = (case arguments n of None \<Rightarrow> [] | Some v \<Rightarrow> v)"

fun render_token :: "token \<Rightarrow> kernel_arguments \<Rightarrow> render_error + string" where
  "render_token (ValBlock c) arguments = Inr c"
| "render_token (VarBlock n) arguments = Inr (case arguments n of None \<Rightarrow> [] | Some v \<Rightarrow> v)"
| "render_token (NamedArgBlock n v) arguments = Inr (render_inner v arguments)"
| "render_token (FunctionIdBlock pn fn) arguments = Inl AttributeError"

text \<open>
  The attribute \<^verbatim>\<open>token.name\<close>, which a named argument and a variable have.
\<close>

fun token_name :: "token \<Rightarrow> string option" where
  "token_name (NamedArgBlock n v) = Some n"
| "token_name (VarBlock n) = Some n"
| "token_name (ValBlock c) = None"
| "token_name (FunctionIdBlock pn fn) = None"

text \<open>
  Modelled from the spec: \<^verbatim>\<open>KernelPluginCollection\<close>, \<^verbatim>\<open>KernelPlugin\<close> and \<^verbatim>\<open>Kernel\<close> are
  not part of the sources at hand. The registry holds named plugins in registration
  order, a plugin is a list of named functions; \<^verbatim>\<open>name in plugin\<close> is membership among the
  plugin's function names; iterating the registry yields the plugins in registration
  order. \<^verbatim>\<open>kernel.plugins\<close> may be absent.

  The spec has no words for the subscripts \<^verbatim>\<open>plugins[name]\<close> and \<^verbatim>\<open>plugin[name]\<close> of these
  classes. On a name that is present a subscript yields the entry. What it does on a name
  that is absent is a parameter of the registry, \<open>on_absent\<close>, with the two things a
  Python subscript does there: it raises \<^verbatim>\<open>KeyError\<close>, as a mapping does, or it returns
  \<^verbatim>\<open>None\<close>. Subscripting \<^verbatim>\<open>None\<close> raises \<^verbatim>\<open>TypeError\<close>.
\<close>

datatype subscript_absent = RaisesKeyError | ReturnsNone

type_synonym kernel_plugin = "(string \<times> kernel_function) list"

record kernel_plugin_collection =
  registered :: "(string \<times> kernel_plugin) list"
  on_absent :: subscript_absent

definition subscript ::
  "subscript_absent \<Rightarrow> (string \<times> 'a) list \<Rightarrow> string \<Rightarrow> render_error + 'a option" where
  "subscript absent entries k =
     (case map_of entries k of
        Some v \<Rightarrow> Inr (Some v)
      | None \<Rightarrow> (case absent of RaisesKeyError \<Rightarrow> Inl KeyError | ReturnsNone \<Rightarrow> Inr None))"

subsection \<open>\<^verbatim>\<open>_get_function_from_plugin_collection\<close>\<close>

text \<open>The loop \<^verbatim>\<open>for plugin in plugins\<close> of the branch without a plugin name.\<close>

fun find_function :: "kernel_plugin list \<Rightarrow> string \<Rightarrow> kernel_function option" where
  "find_function [] function_name = None"
| "find_function (plugin # rest) function_name =
     (if function_name \<in> set (map fst plugin) then map_of plugin function_name
      else find_function rest function_name)"

text \<open>
  The function takes the two attributes of the function block that it reads,
  \<^verbatim>\<open>plugin_name\<close> and \<^verbatim>\<open>function_name\<close>. With a plugin name it evaluates the chained
  subscript \<^verbatim>\<open>plugins[plugin_name][function_name]\<close>, with no test of membership before it
  and no handler around it.
\<close>

definition get_function_from_plugin_collection ::
  "kernel_plugin_collection \<Rightarrow> string option \<Rightarrow> string \<Rightarrow> render_error + kernel_function option"
  where
  "get_function_from_plugin_collection plugins pn function_name =
     (if pn \<noteq> None \<and> length (the pn) > 0 then
        (case subscript (on_absent plugins) (registered plugins) (the pn) of
           Inl e \<Rightarrow> Inl e
         | Inr None \<Rightarrow> Inl TypeError
         | Inr (Some plugin) \<Rightarrow> subscript (on_absent plugins) plugin function_name)
      else Inr (find_function (map snd (registered plugins)) function_name))"

record kernel =
  plugins :: "kernel_plugin_collection option"

subsection \<open>\<^verbatim>\<open>_enrich_function_arguments\<close>\<close>

text \<open>
  The loop \<^verbatim>\<open>for index, token in enumerate(self.tokens[1:], start=1)\<close> over the pairs
  that \<^verbatim>\<open>enumerate\<close> yields. \<open>h\<close> is the store and \<open>arguments\<close> the reference of the
  dictionary that the loop reads (to render a token) and writes. A failure leaves the
  writes made before it in the store.
\<close>

fun enrich_loop ::
  "string list \<Rightarrow> (nat \<times> token) list \<Rightarrow> store \<Rightarrow> nat \<Rightarrow> (render_error + unit) \<times> store" where
  "enrich_loop ps [] h arguments = (Inr (), h)"
| "enrich_loop ps ((index, token) # rest) h arguments =
     (case render_token token (h ! arguments) of
        Inl e \<Rightarrow> (Inl e, h)
      | Inr rendered_value \<Rightarrow>
          if block_type token \<noteq> NAMED_ARG \<and> index = 1 then
            (case ps of
               [] \<Rightarrow> (Inl IndexError, h)
             | p # _ \<Rightarrow>
                 enrich_loop ps rest
                   (h[arguments := (h ! arguments)(p \<mapsto> rendered_value)]) arguments)
          else
            (case token_name token of
               None \<Rightarrow> (Inl AttributeError, h)
             | Some n \<Rightarrow>
                 enrich_loop ps rest
                   (h[arguments := (h ! arguments)(n \<mapsto> rendered_value)]) arguments))"

definition enrich_function_arguments ::
  "code_block \<Rightarrow> store \<Rightarrow> nat \<Rightarrow> kernel_function_metadata \<Rightarrow> (render_error + nat) \<times> store" where
  "enrich_function_arguments self h arguments function_metadata =
     (if parameters function_metadata = [] then
        (Inl (ArityMismatch function_metadata (int (length (tokens self)) - 1)), h)
      else
        (case enrich_loop (parameters function_metadata)
                (List.enumerate 1 (drop 1 (tokens self))) h arguments of
           (Inl e, h') \<Rightarrow> (Inl e, h')
         | (Inr _, h') \<Rightarrow> (Inr arguments, h')))"

subsection \<open>\<^verbatim>\<open>_render_function_call\<close> and \<^verbatim>\<open>render_code\<close>\<close>

text \<open>
  Rendering takes the store and the reference of the caller's bindings, and returns the
  rendered string or the failure, with the store as the call leaves it (\<open>krnl\<close> is the
  parameter \<^verbatim>\<open>kernel\<close>).
  \<^verbatim>\<open>not kernel.plugins\<close> holds of an absent and of an empty registry.
\<close>

definition render_function_call ::
  "code_block \<Rightarrow> kernel \<Rightarrow> store \<Rightarrow> nat \<Rightarrow> (render_error + string) \<times> store" where
  "render_function_call self krnl h arguments =
     (case plugins krnl of
        None \<Rightarrow> (Inl NoRegistry, h)
      | Some registry \<Rightarrow>
          if registered registry = [] then (Inl NoRegistry, h)
          else
            (case tokens self of
               [] \<Rightarrow> (Inl IndexError, h)
             | FunctionIdBlock pn fn # _ \<Rightarrow>
                 (case get_function_from_plugin_collection registry pn fn of
                    Inl e \<Rightarrow> (Inl e, h)
                  | Inr None \<Rightarrow> (Inl (FunctionNotFound pn fn), h)
                  | Inr (Some function) \<Rightarrow>
                      (case copy h arguments of
                         (arguments_clone, h1) \<Rightarrow>
                           (case (if length (tokens self) > 1
                                  then enrich_function_arguments self h1 arguments_clone
                                         (metadata function)
                                  else (Inr arguments_clone, h1)) of
                              (Inl e, h2) \<Rightarrow> (Inl e, h2)
                            | (Inr arguments_clone', h2) \<Rightarrow>
                                (let result = invoke function (h2 ! arguments_clone') in
                                 case embedded_error result of
                                   Some exc \<Rightarrow>
                                     (Inl (InvocationFailed (metadata function) exc), h2)
                                 | None \<Rightarrow>
                                     (Inr (if bool_of_result result then str_of_result result
                                           else []), h2)))))
             | _ # _ \<Rightarrow> (Inl AttributeError, h)))"

definition render_code ::
  "code_block \<Rightarrow> kernel \<Rightarrow> store \<Rightarrow> nat \<Rightarrow> (render_error + string) \<times> store" where
  "render_code self krnl h arguments =
     (case tokens self of
        [] \<Rightarrow> (Inl IndexError, h)
      | token # _ \<Rightarrow>
          if block_type token = FUNCTION_ID then render_function_call self krnl h arguments
          else (render_token token (h ! arguments), h))"

subsection \<open>The binder, as the spec words it\<close>

text \<open>
  What the spec says of the argument binder, to be compared with the loop of
  \<^verbatim>\<open>_enrich_function_arguments\<close>. A named argument is bound under its own name to the
  rendering of its inner token. The first extra token, when it is not a named argument,
  is bound under the name of the first declared parameter to its own rendering. The
  later tokens are named arguments.
\<close>

fun bind_named :: "token \<Rightarrow> kernel_arguments \<Rightarrow> kernel_arguments" where
  "bind_named (NamedArgBlock n v) m = m(n \<mapsto> render_inner v m)"
| "bind_named t m = m"

fun bind_first :: "string \<Rightarrow> token \<Rightarrow> kernel_arguments \<Rightarrow> kernel_arguments" where
  "bind_first p (NamedArgBlock n v) m = m(n \<mapsto> render_inner v m)"
| "bind_first p (ValBlock c) m = m(p \<mapsto> c)"
| "bind_first p (VarBlock x) m = m(p \<mapsto> (case m x of None \<Rightarrow> [] | Some v \<Rightarrow> v))"
| "bind_first p (FunctionIdBlock pn fn) m = m"

fun bound_arguments :: "string list \<Rightarrow> token list \<Rightarrow> kernel_arguments \<Rightarrow> kernel_arguments" where
  "bound_arguments ps [] m = m"
| "bound_arguments ps (t # rest) m = fold bind_named rest (bind_first (hd ps) t m)"

text \<open>
  One write of the binder, for a token with its position: the name it is written under,
  the names it reads, and the update of the bindings. An extra token can be bound when it
  is a named argument, or a value or variable at position 1.
\<close>

fun written_name :: "string list \<Rightarrow> nat \<times> token \<Rightarrow> string" where
  "written_name ps (index, NamedArgBlock n v) = n"
| "written_name ps (index, t) = hd ps"

fun read_names :: "token \<Rightarrow> string set" where
  "read_names (VarBlock x) = {x}"
| "read_names (NamedArgBlock n (InnerVar x)) = {x}"
| "read_names t = {}"

definition bind_token :: "string list \<Rightarrow> nat \<times> token \<Rightarrow> kernel_arguments \<Rightarrow> kernel_arguments" where
  "bind_token ps p m = (if block_type (snd p) = NAMED_ARG then bind_named (snd p) m
                        else bind_first (hd ps) (snd p) m)"

text \<open>The string that a token renders to (the empty string where it has no rendering).\<close>

definition rendered_value :: "token \<Rightarrow> kernel_arguments \<Rightarrow> string" where
  "rendered_value t m = (case render_token t m of Inl e \<Rightarrow> [] | Inr s \<Rightarrow> s)"

fun bindable :: "nat \<times> token \<Rightarrow> bool" where
  "bindable (index, t) =
     (block_type t = NAMED_ARG \<or> (index = 1 \<and> block_type t \<in> {VALUE, VARIABLE}))"

subsection \<open>A registry for the examples\<close>

text \<open>
  The functions of the spec's examples: \<open>add(a, b)\<close>, whose result shows the bindings it
  was invoked with; \<open>noop()\<close>, which declares no parameter; and a function whose result
  carries an embedded error.
\<close>

definition show_binding :: "kernel_arguments \<Rightarrow> string \<Rightarrow> string" where
  "show_binding m k = k @ ''='' @ (case m k of None \<Rightarrow> ''<unset>'' | Some v \<Rightarrow> v)"

definition add_function :: kernel_function where
  "add_function =
     \<lparr>metadata = \<lparr>name = ''add'', plugin_name = ''math'', parameters = [''a'', ''b'']\<rparr>,
      invoke = (\<lambda>m. \<lparr>payload = Some (show_binding m ''a'' @ '','' @ show_binding m ''b''),
                     embedded_error = None\<rparr>)\<rparr>"

definition noop_function :: kernel_function where
  "noop_function =
     \<lparr>metadata = \<lparr>name = ''noop'', plugin_name = ''math'', parameters = []\<rparr>,
      invoke = (\<lambda>m. \<lparr>payload = Some ''done'', embedded_error = None\<rparr>)\<rparr>"

definition failing_function :: kernel_function where
  "failing_function =
     \<lparr>metadata = \<lparr>name = ''fail'', plugin_name = ''math'', parameters = [''a'']\<rparr>,
      invoke = (\<lambda>m. \<lparr>payload = Some ''partial'', embedded_error = Some (PyException ''boom'')\<rparr>)\<rparr>"

definition silent_function :: kernel_function where
  "silent_function =
     \<lparr>metadata = \<lparr>name = ''silent'', plugin_name = ''math'', parameters = [''a'']\<rparr>,
      invoke = (\<lambda>m. \<lparr>payload = None, embedded_error = None\<rparr>)\<rparr>"

definition example_kernel :: kernel where
  "example_kernel =
     \<lparr>plugins = Some
        \<lparr>registered = [(''math'', [(''add'', add_function), (''noop'', noop_function),
                                  (''fail'', failing_function), (''silent'', silent_function)])],
         on_absent = RaisesKeyError\<rparr>\<rparr>"

section \<open>Properties\<close>

subsection \<open>The validator\<close>

lemma check_tokens_loop_named:
  "2 \<le> i \<Longrightarrow> check_tokens_loop i full rest =
     (case filter (\<lambda>t. block_type t \<noteq> NAMED_ARG) rest of
        [] \<Rightarrow> Inr (full, [])
      | t # _ \<Rightarrow> Inl (ExpectedNamedArg (block_type t)))"
  by (induction rest arbitrary: i) auto

lemma check_tokens_function_id:
  "check_tokens (FunctionIdBlock pn fn # rest) =
     (case rest of
        [] \<Rightarrow> Inr ([FunctionIdBlock pn fn], [])
      | t # others \<Rightarrow>
          if block_type t \<notin> set VALID_ARG_TYPES then Inl (InvalidSecondToken (block_type t))
          else (case filter (\<lambda>t. block_type t \<noteq> NAMED_ARG) others of
                  [] \<Rightarrow> Inr (FunctionIdBlock pn fn # rest, [])
                | u # _ \<Rightarrow> Inl (ExpectedNamedArg (block_type u))))"
  by (cases rest) (auto simp: check_tokens_def check_tokens_loop_named)

lemma check_tokens_value_first:
  "block_type t \<in> {VALUE, VARIABLE} \<Longrightarrow>
   check_tokens (t # rest) = Inr ([t], if rest = [] then [] else [TrailingTokensIgnored])"
  by (auto simp: check_tokens_def)

lemma check_tokens_named_first:
  "block_type t = NAMED_ARG \<Longrightarrow> check_tokens (t # rest) = Inl (LeadingNamedArg NAMED_ARG)"
  by (auto simp: check_tokens_def)

lemma filter_empty_nth:
  "filter P xs = [] \<longleftrightarrow> (\<forall>i<length xs. \<not> P (xs ! i))"
  by (metis filter_empty_conv in_set_conv_nth)

lemma tail_named_iff:
  "(\<forall>i. 1 < i \<and> i < Suc (Suc (length others)) \<longrightarrow> block_type ((a # b # others) ! i) = NAMED_ARG)
     \<longleftrightarrow> filter (\<lambda>t. block_type t \<noteq> NAMED_ARG) others = []"
proof -
  have "(\<forall>i. 1 < i \<and> i < Suc (Suc (length others)) \<longrightarrow> block_type ((a # b # others) ! i) = NAMED_ARG)
        \<longleftrightarrow> (\<forall>j<length others. block_type (others ! j) = NAMED_ARG)"
  proof
    assume h: "\<forall>i. 1 < i \<and> i < Suc (Suc (length others)) \<longrightarrow> block_type ((a # b # others) ! i) = NAMED_ARG"
    show "\<forall>j<length others. block_type (others ! j) = NAMED_ARG"
    proof (intro allI impI)
      fix j assume "j < length others"
      then have "1 < Suc (Suc j) \<and> Suc (Suc j) < Suc (Suc (length others))" by simp
      with h have "block_type ((a # b # others) ! Suc (Suc j)) = NAMED_ARG" by blast
      then show "block_type (others ! j) = NAMED_ARG" by simp
    qed
  next
    assume h: "\<forall>j<length others. block_type (others ! j) = NAMED_ARG"
    show "\<forall>i. 1 < i \<and> i < Suc (Suc (length others)) \<longrightarrow> block_type ((a # b # others) ! i) = NAMED_ARG"
    proof (intro allI impI)
      fix i assume "1 < i \<and> i < Suc (Suc (length others))"
      then obtain j where "i = Suc (Suc j)" "j < length others"
        by (metis One_nat_def Suc_less_eq less_Suc_eq_0_disj not_less_zero)
      with h show "block_type ((a # b # others) ! i) = NAMED_ARG" by simp
    qed
  qed
  then show ?thesis by (simp add: filter_empty_nth)
qed


text \<open>
  Claim C1. Constructing a code block from a token list succeeds exactly when the list is
  not empty, its first token is not a named argument and, when the first token is a
  function id, the second token (if there is one) is a value, a variable or a named
  argument and every token at an index above 1 is a named argument. Otherwise the
  construction fails, and no code block is made: on the empty list with
  \<open>EmptySequence\<close>, on a leading named argument with \<open>LeadingNamedArg\<close>, on a wrong second
  token with \<open>InvalidSecondToken\<close>, and on a later token that is not a named argument
  with \<open>ExpectedNamedArg\<close> (of the first such token).
\<close>

theorem parse_succeeds_iff:
  "((\<exists>r. new_code_block c ts = Inr r) \<longleftrightarrow>
      ts \<noteq> [] \<and> block_type (ts ! 0) \<noteq> NAMED_ARG \<and>
      (block_type (ts ! 0) = FUNCTION_ID \<longrightarrow>
         (1 < length ts \<longrightarrow> block_type (ts ! 1) \<in> {VALUE, VARIABLE, NAMED_ARG}) \<and>
         (\<forall>i. 1 < i \<and> i < length ts \<longrightarrow> block_type (ts ! i) = NAMED_ARG)))
   \<and> (ts = [] \<longrightarrow> new_code_block c ts = Inl EmptySequence)
   \<and> (ts \<noteq> [] \<and> block_type (ts ! 0) = NAMED_ARG \<longrightarrow>
        new_code_block c ts = Inl (LeadingNamedArg NAMED_ARG))
   \<and> (block_type (ts ! 0) = FUNCTION_ID \<and> 1 < length ts \<and>
        block_type (ts ! 1) \<notin> {VALUE, VARIABLE, NAMED_ARG} \<longrightarrow>
        new_code_block c ts = Inl (InvalidSecondToken (block_type (ts ! 1))))
   \<and> (block_type (ts ! 0) = FUNCTION_ID \<and> 1 < length ts \<and>
        block_type (ts ! 1) \<in> {VALUE, VARIABLE, NAMED_ARG} \<and>
        (\<exists>i. 1 < i \<and> i < length ts \<and> block_type (ts ! i) \<noteq> NAMED_ARG) \<longrightarrow>
        new_code_block c ts =
          Inl (ExpectedNamedArg
                (block_type (hd (filter (\<lambda>t. block_type t \<noteq> NAMED_ARG) (drop 2 ts))))))"
proof (cases ts)
  case Nil
  then show ?thesis
    by (simp add: new_code_block_def check_tokens_def)
next
  case (Cons t rest)
  show ?thesis
  proof (cases t)
    case (ValBlock x)
    with Cons show ?thesis
      by (simp add: new_code_block_def check_tokens_value_first)
  next
    case (VarBlock x)
    with Cons show ?thesis
      by (simp add: new_code_block_def check_tokens_value_first)
  next
    case (NamedArgBlock n v)
    with Cons show ?thesis
      by (simp add: new_code_block_def check_tokens_named_first)
  next
    case (FunctionIdBlock pn fn)
    show ?thesis
    proof (cases rest)
      case Nil
      with Cons FunctionIdBlock show ?thesis
        by (simp add: new_code_block_def check_tokens_function_id)
    next
      case (Cons u others)
      note tail = tail_named_iff [of others t u]
      show ?thesis
      proof (cases "block_type u \<in> {VALUE, VARIABLE, NAMED_ARG}")
        case False
        with \<open>ts = t # rest\<close> Cons FunctionIdBlock show ?thesis
          by (simp add: new_code_block_def check_tokens_function_id VALID_ARG_TYPES_def)
      next
        case True
        show ?thesis
        proof (cases "filter (\<lambda>t. block_type t \<noteq> NAMED_ARG) others")
          case Nil
          with True tail \<open>ts = t # rest\<close> Cons FunctionIdBlock show ?thesis
            by (simp add: new_code_block_def check_tokens_function_id VALID_ARG_TYPES_def)
        next
          case (Cons v vs)
          with True tail \<open>ts = t # rest\<close> \<open>rest = u # others\<close> FunctionIdBlock show ?thesis
            by (simp add: new_code_block_def check_tokens_function_id VALID_ARG_TYPES_def)
        qed
      qed
    qed
  qed
qed

theorem parse_succeeds_iff_witness:
  "(\<exists>r. new_code_block ''add 2 b=3''
          [FunctionIdBlock None ''add'', ValBlock ''2'', NamedArgBlock ''b'' (InnerVal ''3'')] = Inr r)
   \<and> new_code_block '''' [] = Inl EmptySequence
   \<and> new_code_block ''b=3'' [NamedArgBlock ''b'' (InnerVal ''3'')] = Inl (LeadingNamedArg NAMED_ARG)
   \<and> new_code_block ''f g'' [FunctionIdBlock None ''f'', FunctionIdBlock None ''g'']
        = Inl (InvalidSecondToken FUNCTION_ID)
   \<and> new_code_block ''f 1 b=3 $x''
        [FunctionIdBlock None ''f'', ValBlock ''1'', NamedArgBlock ''b'' (InnerVal ''3''), VarBlock ''x'']
        = Inl (ExpectedNamedArg VARIABLE)"
proof -
  have less3: "\<And>i. 1 < i \<and> i < 3 \<longleftrightarrow> i = (2::nat)" by arith
  have a: "\<exists>r. new_code_block ''add 2 b=3''
          [FunctionIdBlock None ''add'', ValBlock ''2'', NamedArgBlock ''b'' (InnerVal ''3'')] = Inr r"
    using parse_succeeds_iff [of "''add 2 b=3''"
        "[FunctionIdBlock None ''add'', ValBlock ''2'', NamedArgBlock ''b'' (InnerVal ''3'')]"]
    by (simp add: less3)
  have b: "new_code_block '''' [] = Inl EmptySequence"
    using parse_succeeds_iff [of "''''" "[]"] by simp
  have c: "new_code_block ''b=3'' [NamedArgBlock ''b'' (InnerVal ''3'')] = Inl (LeadingNamedArg NAMED_ARG)"
    using parse_succeeds_iff [of "''b=3''" "[NamedArgBlock ''b'' (InnerVal ''3'')]"] by simp
  have d: "new_code_block ''f g'' [FunctionIdBlock None ''f'', FunctionIdBlock None ''g'']
        = Inl (InvalidSecondToken FUNCTION_ID)"
    using parse_succeeds_iff [of "''f g''" "[FunctionIdBlock None ''f'', FunctionIdBlock None ''g'']"]
    by simp
  have "\<exists>i. 1 < i \<and> i < length [FunctionIdBlock None ''f'', ValBlock ''1'', NamedArgBlock ''b'' (InnerVal ''3''), VarBlock ''x''] \<and>
     block_type ([FunctionIdBlock None ''f'', ValBlock ''1'', NamedArgBlock ''b'' (InnerVal ''3''), VarBlock ''x''] ! i) \<noteq> NAMED_ARG"
    by (rule exI [of _ 3]) simp
  then have e: "new_code_block ''f 1 b=3 $x''
        [FunctionIdBlock None ''f'', ValBlock ''1'', NamedArgBlock ''b'' (InnerVal ''3''), VarBlock ''x'']
        = Inl (ExpectedNamedArg VARIABLE)"
    using parse_succeeds_iff [of "''f 1 b=3 $x''"
        "[FunctionIdBlock None ''f'', ValBlock ''1'', NamedArgBlock ''b'' (InnerVal ''3''), VarBlock ''x'']"]
    by simp
  from a b c d e show ?thesis by blast
qed

subsection \<open>The binder and the store\<close>

lemma enrich_loop_store: "\<exists>m. snd (enrich_loop ps xs h r) = h[r := m]"
proof (induction ps xs h r rule: enrich_loop.induct)
  case (1 ps h arguments)
  have "h = h[arguments := h ! arguments]" by simp
  then show ?case by (metis enrich_loop.simps(1) snd_conv)
next
  case (2 ps index token rest h arguments)
  have same: "\<exists>m. h = h[arguments := m]"
    by (metis list_update_id)
  show ?case
  proof (cases "render_token token (h ! arguments)")
    case (Inl e)
    with same show ?thesis by simp
  next
    case (Inr s)
    show ?thesis
    proof (cases "block_type token \<noteq> NAMED_ARG \<and> index = 1")
      case True
      show ?thesis
      proof (cases ps)
        case Nil
        with Inr True same show ?thesis by simp
      next
        case (Cons p ps')
        with "2.IH"(1) [OF Inr True Cons] Inr True show ?thesis by simp
      qed
    next
      case False
      show ?thesis
      proof (cases "token_name token")
        case None
        with Inr False same show ?thesis by auto
      next
        case (Some n)
        with "2.IH"(2) [OF Inr False Some] Inr False show ?thesis by auto
      qed
    qed
  qed
qed

lemma bind_token_bindable:
  assumes "bindable (index, t)" and "ps = p # ps'"
  shows "render_token t m = Inr s \<Longrightarrow>
           (if block_type t \<noteq> NAMED_ARG \<and> index = 1 then m(p \<mapsto> s)
            else (case token_name t of None \<Rightarrow> m | Some n \<Rightarrow> m(n \<mapsto> s)))
           = bind_token ps (index, t) m"
    and "\<exists>s. render_token t m = Inr s"
    and "block_type t = NAMED_ARG \<Longrightarrow> token_name t \<noteq> None"
  using assms by (cases t; auto simp: bind_token_def)+

lemma enrich_loop_fold:
  assumes "ps \<noteq> []" and "r < length h" and "\<forall>p\<in>set xs. bindable p"
  shows "enrich_loop ps xs h r = (Inr (), h[r := fold (bind_token ps) xs (h ! r)])"
  using assms(2,3)
proof (induction xs arbitrary: h)
  case Nil
  then show ?case by simp
next
  case (Cons x xs)
  obtain index t where x: "x = (index, t)" by (cases x)
  obtain p ps' where ps: "ps = p # ps'" using assms(1) by (cases ps) auto
  from Cons.prems x have b: "bindable (index, t)" by simp
  obtain s where s: "render_token t (h ! r) = Inr s"
    using bind_token_bindable(2) [OF b ps] by blast
  note eq = bind_token_bindable(1) [OF b ps s]
  have rest: "\<forall>p\<in>set xs. bindable p" using Cons.prems(2) by simp
  have step: "enrich_loop ps xs (h[r := m]) r = (Inr (), h[r := fold (bind_token ps) xs m])" for m
    using Cons.IH [of "h[r := m]"] rest Cons.prems(1) by simp
  show ?case
  proof (cases "block_type t \<noteq> NAMED_ARG \<and> index = 1")
    case True
    with eq have "bind_token ps (index, t) (h ! r) = (h ! r)(p \<mapsto> s)" by simp
    with True s x step [of "(h ! r)(p \<mapsto> s)"] show ?thesis
      unfolding ps by simp
  next
    case False
    with b have na: "block_type t = NAMED_ARG" by auto
    then obtain n where n: "token_name t = Some n"
      using bind_token_bindable(3) [OF b ps] by auto
    with eq na have "bind_token ps (index, t) (h ! r) = (h ! r)(n \<mapsto> s)" by simp
    with False n s x step [of "(h ! r)(n \<mapsto> s)"] show ?thesis
      unfolding ps by auto
  qed
qed

lemma valid_call_tokens:
  assumes "check_tokens (FunctionIdBlock pn fn # extras) = Inr (ts, w)"
  shows "ts = FunctionIdBlock pn fn # extras"
  using assms by (auto simp: check_tokens_function_id split: list.splits if_splits)

lemma valid_call_first:
  assumes "check_tokens (FunctionIdBlock pn fn # t # rest) = Inr (ts, w)"
  shows "block_type t \<in> {VALUE, VARIABLE, NAMED_ARG}"
  using assms
  by (auto simp: check_tokens_function_id VALID_ARG_TYPES_def split: list.splits if_splits)

lemma valid_call_rest:
  assumes "check_tokens (FunctionIdBlock pn fn # t # rest) = Inr (ts, w)"
  shows "\<forall>u\<in>set rest. block_type u = NAMED_ARG"
  using assms
  by (auto simp: check_tokens_function_id filter_empty_conv split: list.splits if_splits)

lemma valid_call_bindable:
  assumes "check_tokens (FunctionIdBlock pn fn # extras) = Inr (ts, w)"
  shows "\<forall>p\<in>set (List.enumerate (Suc 0) extras). bindable p"
proof (cases extras)
  case Nil
  then show ?thesis by simp
next
  case (Cons t rest)
  from valid_call_rest [OF assms [unfolded Cons]]
  have "\<forall>p\<in>set (List.enumerate (Suc (Suc 0)) rest). bindable p"
    by (auto simp: in_set_enumerate_eq)
  with valid_call_first [OF assms [unfolded Cons]] Cons show ?thesis
    by auto
qed

lemma fold_bind_token_named:
  "\<forall>u\<in>set rest. block_type u = NAMED_ARG \<Longrightarrow>
   fold (bind_token ps) (List.enumerate i rest) m = fold bind_named rest m"
  by (induction rest arbitrary: i m) (simp_all add: bind_token_def)

lemma bind_token_first:
  "block_type t \<in> {VALUE, VARIABLE, NAMED_ARG} \<Longrightarrow>
   bind_token ps (i, t) m = bind_first (hd ps) t m"
  by (cases t) (simp_all add: bind_token_def)

lemma fold_bind_token_bound_arguments:
  assumes "check_tokens (FunctionIdBlock pn fn # extras) = Inr (ts, w)"
  shows "fold (bind_token ps) (List.enumerate (Suc 0) extras) m = bound_arguments ps extras m"
proof (cases extras)
  case Nil
  then show ?thesis by simp
next
  case (Cons t rest)
  with valid_call_first [OF assms [unfolded Cons]] valid_call_rest [OF assms [unfolded Cons]]
  show ?thesis
    by (simp add: fold_bind_token_named bind_token_first)
qed

lemma enrich_function_arguments_valid:
  assumes "check_tokens (FunctionIdBlock pn fn # extras) = Inr (ts, w)"
    and "parameters md \<noteq> []" and "r < length h"
  shows "enrich_function_arguments \<lparr>content = c, tokens = ts\<rparr> h r md
           = (Inr r, h[r := bound_arguments (parameters md) extras (h ! r)])"
proof -
  have "enrich_loop (parameters md) (List.enumerate (Suc 0) extras) h r
          = (Inr (), h[r := fold (bind_token (parameters md)) (List.enumerate (Suc 0) extras) (h ! r)])"
    by (rule enrich_loop_fold [OF assms(2,3) valid_call_bindable [OF assms(1)]])
  then show ?thesis
    using assms(2) valid_call_tokens [OF assms(1)]
    by (simp add: enrich_function_arguments_def fold_bind_token_bound_arguments [OF assms(1)])
qed

lemma result_string:
  "(if bool_of_result r then str_of_result r else []) = (case payload r of None \<Rightarrow> [] | Some s \<Rightarrow> s)"
  by (simp add: bool_of_result_def str_of_result_def split: option.splits)

lemma render_function_call_valid:
  assumes "check_tokens (FunctionIdBlock pn fn # extras) = Inr (ts, w)"
    and "plugins krnl = Some registry" and "registered registry \<noteq> []"
    and "get_function_from_plugin_collection registry pn fn = Inr (Some f)"
    and "extras = [] \<or> parameters (metadata f) \<noteq> []"
    and "a < length h"
    and "m' = bound_arguments (parameters (metadata f)) extras (h ! a)"
  shows "render_code \<lparr>content = c, tokens = ts\<rparr> krnl h a
           = ((case embedded_error (invoke f m') of
                 Some exc \<Rightarrow> Inl (InvocationFailed (metadata f) exc)
               | None \<Rightarrow> Inr (case payload (invoke f m') of None \<Rightarrow> [] | Some s \<Rightarrow> s)),
              h @ [m'])"
proof (cases extras)
  case Nil
  with assms valid_call_tokens [OF assms(1)] show ?thesis
    by (simp add: render_code_def render_function_call_def copy_def result_string
             split: option.splits)
next
  case (Cons t rest)
  with assms(5) have ps: "parameters (metadata f) \<noteq> []" by simp
  have "enrich_function_arguments \<lparr>content = c, tokens = ts\<rparr> (h @ [h ! a]) (length h) (metadata f)
          = (Inr (length h), (h @ [h ! a])[length h :=
               bound_arguments (parameters (metadata f)) extras ((h @ [h ! a]) ! length h)])"
    by (rule enrich_function_arguments_valid [OF assms(1) ps]) simp
  with Cons assms valid_call_tokens [OF assms(1)] show ?thesis
    by (simp add: render_code_def render_function_call_def copy_def result_string
             split: option.splits)
qed


lemma bind_token_upd:
  "bindable p \<Longrightarrow> bind_token ps p m = m(written_name ps p \<mapsto> rendered_value (snd p) m)"
proof -
  obtain i t where "p = (i, t)" by (cases p)
  then show "bindable p \<Longrightarrow> ?thesis"
    by (cases t) (auto simp: bind_token_def rendered_value_def)
qed

lemma rendered_value_cong:
  "\<forall>x\<in>read_names t. m x = m' x \<Longrightarrow> rendered_value t m = rendered_value t m'"
proof (cases t)
  case (NamedArgBlock n v)
  then show "\<forall>x\<in>read_names t. m x = m' x \<Longrightarrow> ?thesis"
    by (cases v) (simp_all add: rendered_value_def)
qed (simp_all add: rendered_value_def)

lemma rendered_value_upd:
  "k \<notin> read_names t \<Longrightarrow> rendered_value t (m(k \<mapsto> v)) = rendered_value t m"
  by (rule rendered_value_cong) auto

lemma bind_token_commute:
  assumes "bindable p" and "bindable q"
    and "written_name ps p \<noteq> written_name ps q"
    and "written_name ps p \<notin> read_names (snd q)"
    and "written_name ps q \<notin> read_names (snd p)"
  shows "bind_token ps p (bind_token ps q m) = bind_token ps q (bind_token ps p m)"
  using assms by (simp add: bind_token_upd rendered_value_upd fun_upd_twist)

lemma fold_bind_token_permuted:
  assumes "mset xs = mset ys"
    and "\<forall>p\<in>set xs. bindable p"
    and "distinct (map (written_name ps) xs)"
    and "\<forall>p\<in>set xs. read_names (snd p) \<inter> written_name ps ` set xs = {}"
  shows "fold (bind_token ps) xs m = fold (bind_token ps) ys m"
proof (rule fold_permuted_eq [where P = "\<lambda>_. True", OF assms(1)])
  fix p q and z :: kernel_arguments
  assume p: "p \<in> set xs" and q: "q \<in> set xs"
  show "bind_token ps p (bind_token ps q z) = bind_token ps q (bind_token ps p z)"
  proof (cases "p = q")
    case True
    then show ?thesis by simp
  next
    case False
    with p q assms(3) have "written_name ps p \<noteq> written_name ps q"
      by (meson distinct_map inj_onD)
    moreover from p q assms(4) have "written_name ps p \<notin> read_names (snd q)"
      and "written_name ps q \<notin> read_names (snd p)"
      by blast+
    ultimately show ?thesis
      using p q assms(2) by (simp add: bind_token_commute)
  qed
qed simp_all

lemma fold_bind_token_other:
  assumes "\<forall>p\<in>set xs. bindable p" and "k \<notin> written_name ps ` set xs"
  shows "fold (bind_token ps) xs m k = m k"
  using assms by (induction xs arbitrary: m) (auto simp: bind_token_upd)

lemma fold_bind_token_last:
  assumes "\<forall>p\<in>set (xs @ p # ys). bindable p"
    and "written_name ps p \<notin> written_name ps ` set ys"
  shows "fold (bind_token ps) (xs @ p # ys) m (written_name ps p)
           = Some (rendered_value (snd p) (fold (bind_token ps) xs m))"
proof -
  have b: "\<forall>q\<in>set ys. bindable q" and bp: "bindable p" using assms(1) by auto
  have "fold (bind_token ps) (xs @ p # ys) m (written_name ps p)
          = bind_token ps p (fold (bind_token ps) xs m) (written_name ps p)"
    using fold_bind_token_other [OF b assms(2)] by simp
  then show ?thesis
    using bp by (simp add: bind_token_upd)
qed

lemma fold_bind_token_reads:
  assumes "\<forall>p\<in>set xs. bindable p"
    and "read_names t \<inter> written_name ps ` set xs = {}"
  shows "rendered_value t (fold (bind_token ps) xs m) = rendered_value t m"
proof (rule rendered_value_cong, rule ballI)
  fix x assume "x \<in> read_names t"
  with assms(2) have "x \<notin> written_name ps ` set xs" by blast
  then show "fold (bind_token ps) xs m x = m x"
    by (rule fold_bind_token_other [OF assms(1)])
qed

lemma fold_bind_token_independent:
  assumes "\<forall>p\<in>set xs. bindable p"
    and "distinct (map (written_name ps) xs)"
    and "\<forall>p\<in>set xs. read_names (snd p) \<inter> written_name ps ` set xs = {}"
    and "p \<in> set xs"
  shows "fold (bind_token ps) xs m (written_name ps p) = Some (rendered_value (snd p) m)"
proof -
  from assms(4) obtain us vs where xs: "xs = us @ p # vs"
    by (meson split_list)
  from assms(2) have later: "written_name ps p \<notin> written_name ps ` set vs"
    unfolding xs by auto
  have bus: "\<forall>q\<in>set us. bindable q" using assms(1) unfolding xs by simp
  have "read_names (snd p) \<inter> written_name ps ` set us = {}"
    using assms(3) unfolding xs by auto
  then have "rendered_value (snd p) (fold (bind_token ps) us m) = rendered_value (snd p) m"
    by (rule fold_bind_token_reads [OF bus])
  with fold_bind_token_last [OF assms(1) [unfolded xs] later, of m] show ?thesis
    unfolding xs by simp
qed

lemma get_function_from_plugin_collection_error:
  "get_function_from_plugin_collection registry pn fn = Inl e \<Longrightarrow> e = KeyError \<or> e = TypeError"
  by (auto simp: get_function_from_plugin_collection_def subscript_def
           split: if_splits option.splits subscript_absent.splits sum.splits)

lemma enrich_function_arguments_store:
  "\<exists>m. snd (enrich_function_arguments self h r md) = h[r := m]"
proof (cases "parameters md = []")
  case True
  have "h = h[r := h ! r]" by simp
  with True show ?thesis
    by (metis enrich_function_arguments_def snd_conv)
next
  case False
  obtain m where "snd (enrich_loop (parameters md) (List.enumerate 1 (drop 1 (tokens self))) h r) = h[r := m]"
    using enrich_loop_store by blast
  with False show ?thesis
    by (auto simp: enrich_function_arguments_def split: prod.splits sum.splits)
qed

lemma render_function_call_store:
  "snd (render_function_call self krnl h a) = h
     \<or> (\<exists>m. snd (render_function_call self krnl h a) = h @ [m])"
proof -
  have e: "\<exists>m. snd (enrich_function_arguments self (h @ [h ! a]) (length h) md) = h @ [m]" for md
    using enrich_function_arguments_store [of self "h @ [h ! a]" "length h" md] by simp
  have e': "enrich_function_arguments self (h @ [h ! a]) (length h) md = (x, y) \<Longrightarrow> \<exists>m. y = h @ [m]"
    for md x y
    using e [of md] by simp
  show ?thesis
    by (auto simp: render_function_call_def copy_def Let_def dest: e'
             split: option.splits list.splits token.splits prod.splits sum.splits if_splits)
qed

lemma render_code_store:
  "snd (render_code self krnl h a) = h \<or> (\<exists>m. snd (render_code self krnl h a) = h @ [m])"
  using render_function_call_store [of self krnl h a]
  by (auto simp: render_code_def split: list.splits)

subsection \<open>The claims on rendering and binding\<close>

lemma namespaced_lookup_absent_plugin:
  assumes "tokens self = FunctionIdBlock (Some ns) fn # extras" and "ns \<noteq> []"
    and "plugins krnl = Some registry" and "registered registry \<noteq> []"
    and "map_of (registered registry) ns = None"
  shows "render_code self krnl h a
           = (Inl (case on_absent registry of RaisesKeyError \<Rightarrow> KeyError
                                            | ReturnsNone \<Rightarrow> TypeError), h)"
  using assms
  by (simp add: render_code_def render_function_call_def
        get_function_from_plugin_collection_def subscript_def split: subscript_absent.splits)

lemma namespaced_lookup_present:
  assumes "tokens self = FunctionIdBlock (Some ns) fn # extras" and "ns \<noteq> []"
    and "map_of (registered registry) ns = Some plugin"
  shows "get_function_from_plugin_collection registry (Some ns) fn
           = subscript (on_absent registry) plugin fn"
  using assms
  by (simp add: get_function_from_plugin_collection_def subscript_def)

text \<open>
  Claim C2 does not hold of the code. The function id \<open>other.add\<close> names a plugin that the
  registry does not hold (the registry holds the plugin \<open>math\<close>, with a function \<open>add\<close>).
  The chained subscript \<^verbatim>\<open>plugins["other"]["add"]\<close> does not yield \<^verbatim>\<open>None\<close>: it raises
  \<^verbatim>\<open>KeyError\<close> when the subscript of an absent name raises, and \<^verbatim>\<open>TypeError\<close> when it
  returns \<^verbatim>\<open>None\<close>. Rendering fails with that exception and not with
  \<open>FunctionNotFound\<close>, and the other plugins are not searched. For \<open>math.sub\<close>, a name
  absent from a plugin that is present, rendering fails with \<^verbatim>\<open>KeyError\<close> when the
  subscript raises and with \<open>FunctionNotFound\<close> when it returns \<^verbatim>\<open>None\<close>.
\<close>

theorem namespaced_lookup_absent_plugin_raises:
  "render_code \<lparr>content = ''other.add'', tokens = [FunctionIdBlock (Some ''other'') ''add'']\<rparr>
      example_kernel [Map.empty] 0 = (Inl KeyError, [Map.empty])
   \<and> render_code \<lparr>content = ''other.add'', tokens = [FunctionIdBlock (Some ''other'') ''add'']\<rparr>
      \<lparr>plugins = Some ((the (plugins example_kernel))\<lparr>on_absent := ReturnsNone\<rparr>)\<rparr>
      [Map.empty] 0 = (Inl TypeError, [Map.empty])
   \<and> map_of (registered (the (plugins example_kernel))) ''other'' = None
   \<and> find_function (map snd (registered (the (plugins example_kernel)))) ''add''
       = Some add_function
   \<and> render_code \<lparr>content = ''math.sub'', tokens = [FunctionIdBlock (Some ''math'') ''sub'']\<rparr>
      example_kernel [Map.empty] 0 = (Inl KeyError, [Map.empty])
   \<and> render_code \<lparr>content = ''math.sub'', tokens = [FunctionIdBlock (Some ''math'') ''sub'']\<rparr>
      \<lparr>plugins = Some ((the (plugins example_kernel))\<lparr>on_absent := ReturnsNone\<rparr>)\<rparr>
      [Map.empty] 0 = (Inl (FunctionNotFound (Some ''math'') ''sub''), [Map.empty])"
proof -
  let ?blk = "\<lparr>content = ''other.add'', tokens = [FunctionIdBlock (Some ''other'') ''add'']\<rparr>"
  have absent: "map_of (registered (the (plugins example_kernel))) ''other'' = None"
    by (simp add: example_kernel_def)
  have a: "render_code ?blk example_kernel [Map.empty] 0 = (Inl KeyError, [Map.empty])"
    using namespaced_lookup_absent_plugin
            [of ?blk "''other''" "''add''" "[]" example_kernel "the (plugins example_kernel)"
                "[Map.empty]" 0]
    by (simp add: example_kernel_def)
  have b: "render_code ?blk
      \<lparr>plugins = Some ((the (plugins example_kernel))\<lparr>on_absent := ReturnsNone\<rparr>)\<rparr>
      [Map.empty] 0 = (Inl TypeError, [Map.empty])"
    using namespaced_lookup_absent_plugin
            [of ?blk "''other''" "''add''" "[]"
                "\<lparr>plugins = Some ((the (plugins example_kernel))\<lparr>on_absent := ReturnsNone\<rparr>)\<rparr>"
                "(the (plugins example_kernel))\<lparr>on_absent := ReturnsNone\<rparr>" "[Map.empty]" 0]
    by (simp add: example_kernel_def)
  have c: "find_function (map snd (registered (the (plugins example_kernel)))) ''add''
             = Some add_function"
    by (simp add: example_kernel_def)
  have d: "render_code \<lparr>content = ''math.sub'', tokens = [FunctionIdBlock (Some ''math'') ''sub'']\<rparr>
      example_kernel [Map.empty] 0 = (Inl KeyError, [Map.empty])"
    by (simp add: render_code_def render_function_call_def example_kernel_def
          get_function_from_plugin_collection_def subscript_def)
  have e: "render_code \<lparr>content = ''math.sub'', tokens = [FunctionIdBlock (Some ''math'') ''sub'']\<rparr>
      \<lparr>plugins = Some ((the (plugins example_kernel))\<lparr>on_absent := ReturnsNone\<rparr>)\<rparr>
      [Map.empty] 0 = (Inl (FunctionNotFound (Some ''math'') ''sub''), [Map.empty])"
    by (simp add: render_code_def render_function_call_def example_kernel_def
          get_function_from_plugin_collection_def subscript_def)
  from a b absent c d e show ?thesis by blast
qed

text \<open>
  Claim C3, as stated, fails. The loop renders each token against the clone as the
  earlier writes left it, so a named argument whose inner token is a variable reads what
  an earlier token wrote: with \<open>x=1\<close> before \<open>y=$x\<close> the binder writes \<open>y = "1"\<close>, in the
  other order \<open>y = ""\<close>. And when a name repeats, the order of the two writes decides
  which one is last.
\<close>

theorem binder_order_counterexample:
  "(snd (enrich_function_arguments
           \<lparr>content = ''f x=1 y=$x'',
            tokens = [FunctionIdBlock None ''f'', NamedArgBlock ''x'' (InnerVal ''1''),
                      NamedArgBlock ''y'' (InnerVar ''x'')]\<rparr>
           [Map.empty] 0 \<lparr>name = ''f'', plugin_name = ''p'', parameters = [''a'']\<rparr>) ! 0) ''y''
     = Some ''1''
   \<and> (snd (enrich_function_arguments
           \<lparr>content = ''f y=$x x=1'',
            tokens = [FunctionIdBlock None ''f'', NamedArgBlock ''y'' (InnerVar ''x''),
                      NamedArgBlock ''x'' (InnerVal ''1'')]\<rparr>
           [Map.empty] 0 \<lparr>name = ''f'', plugin_name = ''p'', parameters = [''a'']\<rparr>) ! 0) ''y''
     = Some []
   \<and> (snd (enrich_loop [''a'']
              [(1, NamedArgBlock ''x'' (InnerVal ''1'')), (2, NamedArgBlock ''y'' (InnerVar ''x''))]
              [Map.empty] 0) ! 0) ''y'' = Some ''1''
   \<and> (snd (enrich_loop [''a'']
              [(2, NamedArgBlock ''y'' (InnerVar ''x'')), (1, NamedArgBlock ''x'' (InnerVal ''1''))]
              [Map.empty] 0) ! 0) ''y'' = Some []
   \<and> (snd (enrich_loop [''a'']
              [(1, NamedArgBlock ''x'' (InnerVal ''1'')), (2, NamedArgBlock ''x'' (InnerVal ''2''))]
              [Map.empty] 0) ! 0) ''x'' = Some ''2''
   \<and> (snd (enrich_loop [''a'']
              [(2, NamedArgBlock ''x'' (InnerVal ''2'')), (1, NamedArgBlock ''x'' (InnerVal ''1''))]
              [Map.empty] 0) ! 0) ''x'' = Some ''1''"
  by (simp add: enrich_function_arguments_def)

text \<open>
  Claim C3, amended. For every valid function-call expression, when the extra tokens are
  written under pairwise distinct names and none of them reads a name that the same bind
  writes, the value written for each token is its rendering against the bindings before
  the bind, and processing the extra tokens in any order gives the same final bindings.
  In every case the value finally bound under a name is the one written by the last token
  bound under that name, rendered against the bindings as the tokens before it left them
  (the last write wins).
\<close>

theorem binder_order_independent:
  assumes "check_tokens (FunctionIdBlock pn fn # extras) = Inr (ts, w)"
    and "ps \<noteq> []" and "r < length h"
  shows "(distinct (map (written_name ps) (List.enumerate 1 extras)) \<and>
          (\<forall>t\<in>set extras. read_names t \<inter> written_name ps ` set (List.enumerate 1 extras) = {}) \<and>
          mset pairs = mset (List.enumerate 1 extras) \<longrightarrow>
            enrich_loop ps pairs h r = enrich_loop ps (List.enumerate 1 extras) h r \<and>
            (\<forall>p\<in>set (List.enumerate 1 extras).
               (snd (enrich_loop ps (List.enumerate 1 extras) h r) ! r) (written_name ps p)
                 = Some (rendered_value (snd p) (h ! r))))
         \<and> (\<forall>pre t post.
              extras = pre @ t # post \<and>
              written_name ps (Suc (length pre), t)
                \<notin> written_name ps ` set (List.enumerate (Suc (Suc (length pre))) post) \<longrightarrow>
              (snd (enrich_loop ps (List.enumerate 1 extras) h r) ! r)
                  (written_name ps (Suc (length pre), t))
                = Some (rendered_value t (snd (enrich_loop ps (List.enumerate 1 pre) h r) ! r)))"
proof -
  let ?xs = "List.enumerate (Suc 0) extras"
  have b: "\<forall>p\<in>set ?xs. bindable p"
    by (rule valid_call_bindable [OF assms(1)])
  have run: "enrich_loop ps ys h r = (Inr (), h[r := fold (bind_token ps) ys (h ! r)])"
    if "\<forall>p\<in>set ys. bindable p" for ys
    by (rule enrich_loop_fold [OF assms(2,3) that])
  have final: "snd (enrich_loop ps ys h r) ! r = fold (bind_token ps) ys (h ! r)"
    if "\<forall>p\<in>set ys. bindable p" for ys
    using run [OF that] assms(3) by simp
  have order: "enrich_loop ps pairs h r = enrich_loop ps ?xs h r \<and>
            (\<forall>p\<in>set ?xs. (snd (enrich_loop ps ?xs h r) ! r) (written_name ps p)
                 = Some (rendered_value (snd p) (h ! r)))"
    if d: "distinct (map (written_name ps) ?xs)"
      and rd: "\<forall>t\<in>set extras. read_names t \<inter> written_name ps ` set ?xs = {}"
      and perm: "mset pairs = mset ?xs"
  proof
    have "snd p \<in> set extras" if "p \<in> set ?xs" for p
    proof -
      from that have "snd p \<in> snd ` set ?xs" by (rule imageI)
      then show ?thesis by (simp flip: set_map)
    qed
    with rd have rd': "\<forall>p\<in>set ?xs. read_names (snd p) \<inter> written_name ps ` set ?xs = {}"
      by blast
    from perm have "set pairs = set ?xs" by (rule mset_eq_setD)
    with b have b': "\<forall>p\<in>set pairs. bindable p" by simp
    have "fold (bind_token ps) ?xs (h ! r) = fold (bind_token ps) pairs (h ! r)"
      by (rule fold_bind_token_permuted [OF perm [symmetric] b d rd'])
    then show "enrich_loop ps pairs h r = enrich_loop ps ?xs h r"
      by (simp add: run [OF b] run [OF b'])
    show "\<forall>p\<in>set ?xs. (snd (enrich_loop ps ?xs h r) ! r) (written_name ps p)
                 = Some (rendered_value (snd p) (h ! r))"
      using fold_bind_token_independent [OF b d rd'] by (simp add: final [OF b])
  qed
  have last: "(snd (enrich_loop ps ?xs h r) ! r) (written_name ps (Suc (length pre), t))
                = Some (rendered_value t (snd (enrich_loop ps (List.enumerate (Suc 0) pre) h r) ! r))"
    if e: "extras = pre @ t # post"
      and later: "written_name ps (Suc (length pre), t)
                \<notin> written_name ps ` set (List.enumerate (Suc (Suc (length pre))) post)"
    for pre t post
  proof -
    have xs: "?xs = List.enumerate (Suc 0) pre @ (Suc (length pre), t)
                      # List.enumerate (Suc (Suc (length pre))) post"
      unfolding e by (simp add: enumerate_append_eq)
    from b have bpre: "\<forall>p\<in>set (List.enumerate (Suc 0) pre). bindable p"
      unfolding xs by simp
    have "fold (bind_token ps) ?xs (h ! r) (written_name ps (Suc (length pre), t))
            = Some (rendered_value (snd (Suc (length pre), t))
                      (fold (bind_token ps) (List.enumerate (Suc 0) pre) (h ! r)))"
      unfolding xs by (rule fold_bind_token_last [OF b [unfolded xs] later])
    then show ?thesis
      by (simp add: final [OF b] final [OF bpre])
  qed
  from order last show ?thesis by simp
qed

theorem binder_order_independent_witness:
  "enrich_loop [''a'', ''b'']
       [(2, NamedArgBlock ''b'' (InnerVar ''x'')), (1, ValBlock ''2'')] [[''x'' \<mapsto> ''7'']] 0
     = enrich_loop [''a'', ''b'']
       [(1, ValBlock ''2''), (2, NamedArgBlock ''b'' (InnerVar ''x''))] [[''x'' \<mapsto> ''7'']] 0
   \<and> (snd (enrich_loop [''a'', ''b'']
         [(1, ValBlock ''2''), (2, NamedArgBlock ''b'' (InnerVar ''x''))] [[''x'' \<mapsto> ''7'']] 0) ! 0)
         ''b'' = Some ''7''
   \<and> (snd (enrich_loop [''a'']
         [(1, NamedArgBlock ''x'' (InnerVal ''1'')), (2, NamedArgBlock ''x'' (InnerVal ''2''))]
         [Map.empty] 0) ! 0) ''x'' = Some ''2''"
proof -
  let ?v2 = "ValBlock ''2''" and ?nb = "NamedArgBlock ''b'' (InnerVar ''x'')"
  let ?x1 = "NamedArgBlock ''x'' (InnerVal ''1'')" and ?x2 = "NamedArgBlock ''x'' (InnerVal ''2'')"
  have v: "check_tokens (FunctionIdBlock None ''f'' # [?v2, ?nb])
             = Inr ([FunctionIdBlock None ''f'', ?v2, ?nb], [])"
    by (simp add: check_tokens_def VALID_ARG_TYPES_def)
  have ps: "[''a'', ''b''] \<noteq> []" and len: "0 < length [[''x'' \<mapsto> ''7'']]"
    by simp_all
  have pre: "distinct (map (written_name [''a'', ''b'']) (List.enumerate 1 [?v2, ?nb])) \<and>
          (\<forall>t\<in>set [?v2, ?nb].
             read_names t \<inter> written_name [''a'', ''b''] ` set (List.enumerate 1 [?v2, ?nb]) = {}) \<and>
          mset [(2, ?nb), (1, ?v2)] = mset (List.enumerate 1 [?v2, ?nb])"
    by simp
  from binder_order_independent [OF v ps len, of "[(2, ?nb), (1, ?v2)]"] pre
  have "enrich_loop [''a'', ''b''] [(2, ?nb), (1, ?v2)] [[''x'' \<mapsto> ''7'']] 0
          = enrich_loop [''a'', ''b''] (List.enumerate 1 [?v2, ?nb]) [[''x'' \<mapsto> ''7'']] 0
        \<and> (\<forall>p\<in>set (List.enumerate 1 [?v2, ?nb]).
               (snd (enrich_loop [''a'', ''b''] (List.enumerate 1 [?v2, ?nb]) [[''x'' \<mapsto> ''7'']] 0) ! 0)
                   (written_name [''a'', ''b''] p)
                 = Some (rendered_value (snd p) ([[''x'' \<mapsto> ''7'']] ! 0)))"
    by blast
  then have a: "enrich_loop [''a'', ''b''] [(2, ?nb), (1, ?v2)] [[''x'' \<mapsto> ''7'']] 0
          = enrich_loop [''a'', ''b''] [(1, ?v2), (2, ?nb)] [[''x'' \<mapsto> ''7'']] 0"
    and b: "(snd (enrich_loop [''a'', ''b''] [(1, ?v2), (2, ?nb)] [[''x'' \<mapsto> ''7'']] 0) ! 0) ''b''
          = Some ''7''"
    by (simp_all add: rendered_value_def numeral_2_eq_2)
  have v': "check_tokens (FunctionIdBlock None ''f'' # [?x1, ?x2])
             = Inr ([FunctionIdBlock None ''f'', ?x1, ?x2], [])"
    by (simp add: check_tokens_def VALID_ARG_TYPES_def)
  have ps': "[''a''] \<noteq> []" and len': "0 < length [Map.empty :: kernel_arguments]"
    by simp_all
  from binder_order_independent [OF v' ps' len']
  have "\<forall>pre t post.
              [?x1, ?x2] = pre @ t # post \<and>
              written_name [''a''] (Suc (length pre), t)
                \<notin> written_name [''a''] ` set (List.enumerate (Suc (Suc (length pre))) post) \<longrightarrow>
              (snd (enrich_loop [''a''] (List.enumerate 1 [?x1, ?x2]) [Map.empty] 0) ! 0)
                  (written_name [''a''] (Suc (length pre), t))
                = Some (rendered_value t
                          (snd (enrich_loop [''a''] (List.enumerate 1 pre) [Map.empty] 0) ! 0))"
    by blast
  from this [rule_format, of "[?x1]" ?x2 "[]"]
  have c: "(snd (enrich_loop [''a''] [(1, ?x1), (2, ?x2)] [Map.empty] 0) ! 0) ''x'' = Some ''2''"
    by (simp add: rendered_value_def numeral_2_eq_2)
  from a b c show ?thesis by blast
qed

text \<open>
  Claim C4, as stated, fails: the validator returns \<^verbatim>\<open>[token]\<close>, so the code block that
  is constructed holds the first token only, and the trailing tokens are not retained.
\<close>

theorem trailing_tokens_dropped_counterexample:
  "new_code_block ''hi $x'' [ValBlock ''hi'', VarBlock ''x'']
     = Inr (\<lparr>content = ''hi $x'', tokens = [ValBlock ''hi'']\<rparr>, [TrailingTokensIgnored])
   \<and> [ValBlock ''hi''] \<noteq> [ValBlock ''hi'', VarBlock ''x'']
   \<and> VarBlock ''x'' \<notin> set [ValBlock ''hi'']"
  by (simp add: new_code_block_def check_tokens_def)

text \<open>
  Claim C4, amended. For every token list whose first token is a value or a variable and
  whose length is greater than 1, the construction succeeds with the one non-fatal
  diagnostic, and the tokens of the resulting code block are the first token alone: the
  trailing tokens are dropped (and so are never rendered).
\<close>

theorem parse_keeps_first_token_only:
  assumes "block_type t \<in> {VALUE, VARIABLE}" and "rest \<noteq> []"
  shows "new_code_block c (t # rest)
           = Inr (\<lparr>content = c, tokens = [t]\<rparr>, [TrailingTokensIgnored])"
  using assms by (simp add: new_code_block_def check_tokens_value_first)

theorem parse_keeps_first_token_only_witness:
  "block_type (VarBlock ''x'') \<in> {VALUE, VARIABLE} \<and> [ValBlock ''hi'', VarBlock ''y''] \<noteq> []
   \<and> new_code_block ''$x hi $y'' [VarBlock ''x'', ValBlock ''hi'', VarBlock ''y'']
       = Inr (\<lparr>content = ''$x hi $y'', tokens = [VarBlock ''x'']\<rparr>, [TrailingTokensIgnored])"
  using parse_keeps_first_token_only
          [of "VarBlock ''x''" "[ValBlock ''hi'', VarBlock ''y'']" "''$x hi $y''"]
  by simp

text \<open>
  Claim C5. For every valid function-call expression with extra tokens whose function
  resolves and declares at least one parameter, the binder leaves in the clone the
  bindings \<open>m'\<close> obtained from the caller's bindings by binding the first extra token
  (under the first declared parameter when it is not a named argument, under its own name
  when it is) and then every later token under its own name; the function is invoked
  with \<open>m'\<close>, and rendering returns the string of its result. For \<open>add(a, b)\<close> called
  with the tokens \<open>add\<close>, \<open>"2"\<close>, \<open>b="3"\<close> the function sees \<open>a = "2"\<close> and \<open>b = "3"\<close>.
\<close>

theorem binder_positional_then_named:
  assumes "check_tokens (FunctionIdBlock pn fn # t # rest) = Inr (ts, w)"
    and "plugins krnl = Some registry" and "registered registry \<noteq> []"
    and "get_function_from_plugin_collection registry pn fn = Inr (Some f)"
    and "parameters (metadata f) = p # ps"
    and "a < length h"
    and "m' = fold bind_named rest (bind_first p t (h ! a))"
  shows "enrich_function_arguments \<lparr>content = c, tokens = ts\<rparr> (h @ [h ! a]) (length h) (metadata f)
           = (Inr (length h), h @ [m'])
         \<and> render_code \<lparr>content = c, tokens = ts\<rparr> krnl h a
           = ((case embedded_error (invoke f m') of
                 Some exc \<Rightarrow> Inl (InvocationFailed (metadata f) exc)
               | None \<Rightarrow> Inr (case payload (invoke f m') of None \<Rightarrow> [] | Some s \<Rightarrow> s)),
              h @ [m'])"
proof -
  have ps: "parameters (metadata f) \<noteq> []" using assms(5) by simp
  have m': "m' = bound_arguments (parameters (metadata f)) (t # rest) (h ! a)"
    using assms(5,7) by simp
  have "enrich_function_arguments \<lparr>content = c, tokens = ts\<rparr> (h @ [h ! a]) (length h) (metadata f)
          = (Inr (length h), (h @ [h ! a])[length h :=
               bound_arguments (parameters (metadata f)) (t # rest) ((h @ [h ! a]) ! length h)])"
    by (rule enrich_function_arguments_valid [OF assms(1) ps]) simp
  then have "enrich_function_arguments \<lparr>content = c, tokens = ts\<rparr> (h @ [h ! a]) (length h) (metadata f)
          = (Inr (length h), h @ [m'])"
    using m' by simp
  moreover have "render_code \<lparr>content = c, tokens = ts\<rparr> krnl h a
           = ((case embedded_error (invoke f m') of
                 Some exc \<Rightarrow> Inl (InvocationFailed (metadata f) exc)
               | None \<Rightarrow> Inr (case payload (invoke f m') of None \<Rightarrow> [] | Some s \<Rightarrow> s)),
              h @ [m'])"
    by (rule render_function_call_valid [OF assms(1-4) _ assms(6) m']) (simp add: ps)
  ultimately show ?thesis by simp
qed

theorem binder_positional_then_named_witness:
  "render_code \<lparr>content = ''add 2 b=3'',
                 tokens = [FunctionIdBlock None ''add'', ValBlock ''2'', NamedArgBlock ''b'' (InnerVal ''3'')]\<rparr>
      example_kernel [Map.empty] 0
     = (Inr ''a=2,b=3'', [Map.empty, [''a'' \<mapsto> ''2'', ''b'' \<mapsto> ''3'']])"
proof -
  have v: "check_tokens [FunctionIdBlock None ''add'', ValBlock ''2'', NamedArgBlock ''b'' (InnerVal ''3'')]
             = Inr ([FunctionIdBlock None ''add'', ValBlock ''2'', NamedArgBlock ''b'' (InnerVal ''3'')], [])"
    by (simp add: check_tokens_def VALID_ARG_TYPES_def)
  have k: "plugins example_kernel = Some (the (plugins example_kernel))"
    and n: "registered (the (plugins example_kernel)) \<noteq> []"
    by (simp_all add: example_kernel_def)
  have g: "get_function_from_plugin_collection (the (plugins example_kernel)) None ''add''
             = Inr (Some add_function)"
    by (simp add: example_kernel_def get_function_from_plugin_collection_def)
  have p: "parameters (metadata add_function) = ''a'' # [''b'']"
    by (simp add: add_function_def)
  have a: "0 < length [Map.empty :: kernel_arguments]"
    by simp
  have m: "[''a'' \<mapsto> ''2'', ''b'' \<mapsto> ''3'']
             = fold bind_named [NamedArgBlock ''b'' (InnerVal ''3'')]
                 (bind_first ''a'' (ValBlock ''2'') ([Map.empty] ! 0))"
    by simp
  show ?thesis
    using binder_positional_then_named [OF v k n g p a m, of "''add 2 b=3''"]
    by (simp add: add_function_def show_binding_def)
qed

text \<open>
  Claim C6. For every code block with a function id and at least one extra token whose
  function resolves and declares no parameter, rendering fails with \<open>ArityMismatch\<close>;
  a code block with at most one token never fails with \<open>ArityMismatch\<close>.
\<close>

theorem no_parameters_arity_mismatch:
  "(tokens self = FunctionIdBlock pn fn # t # rest \<and> plugins krnl = Some registry
      \<and> registered registry \<noteq> []
      \<and> get_function_from_plugin_collection registry pn fn = Inr (Some f)
      \<and> parameters (metadata f) = []
     \<longrightarrow> render_code self krnl h a
           = (Inl (ArityMismatch (metadata f) (int (length rest) + 1)), h @ [h ! a]))
   \<and> (length (tokens self) \<le> 1
     \<longrightarrow> fst (render_code self krnl h a) \<noteq> Inl (ArityMismatch md n))"
proof (intro conjI impI)
  assume "tokens self = FunctionIdBlock pn fn # t # rest \<and> plugins krnl = Some registry
      \<and> registered registry \<noteq> []
      \<and> get_function_from_plugin_collection registry pn fn = Inr (Some f)
      \<and> parameters (metadata f) = []"
  then show "render_code self krnl h a
           = (Inl (ArityMismatch (metadata f) (int (length rest) + 1)), h @ [h ! a])"
    by (simp add: render_code_def render_function_call_def copy_def enrich_function_arguments_def)
next
  assume short: "length (tokens self) \<le> 1"
  show "fst (render_code self krnl h a) \<noteq> Inl (ArityMismatch md n)"
  proof (cases "tokens self")
    case Nil
    then show ?thesis by (simp add: render_code_def)
  next
    case (Cons t rest)
    with short have rest: "rest = []" by simp
    show ?thesis
    proof (cases t)
      case (FunctionIdBlock pn' fn')
      with Cons rest show ?thesis
        by (auto simp: render_code_def render_function_call_def copy_def Let_def
                 split: option.splits sum.splits
                 dest: get_function_from_plugin_collection_error)
    qed (use Cons in \<open>simp_all add: render_code_def\<close>)
  qed
qed

theorem no_parameters_arity_mismatch_witness:
  "render_code \<lparr>content = ''noop x'', tokens = [FunctionIdBlock None ''noop'', ValBlock ''x'']\<rparr>
      example_kernel [Map.empty] 0
     = (Inl (ArityMismatch (metadata noop_function) 1), [Map.empty, Map.empty])
   \<and> fst (render_code \<lparr>content = ''noop'', tokens = [FunctionIdBlock None ''noop'']\<rparr>
      example_kernel [Map.empty] 0) \<noteq> Inl (ArityMismatch (metadata noop_function) 0)"
proof -
  have g: "get_function_from_plugin_collection (the (plugins example_kernel)) None ''noop''
             = Inr (Some noop_function)"
    by (simp add: example_kernel_def get_function_from_plugin_collection_def)
  have a: "render_code \<lparr>content = ''noop x'', tokens = [FunctionIdBlock None ''noop'', ValBlock ''x'']\<rparr>
      example_kernel [Map.empty] 0
     = (Inl (ArityMismatch (metadata noop_function) 1), [Map.empty, Map.empty])"
    using no_parameters_arity_mismatch
            [of "\<lparr>content = ''noop x'', tokens = [FunctionIdBlock None ''noop'', ValBlock ''x'']\<rparr>"
                None "''noop''" "ValBlock ''x''" "[]" example_kernel "the (plugins example_kernel)"
                noop_function "[Map.empty]" 0] g
    by (simp add: example_kernel_def noop_function_def)
  have b: "fst (render_code \<lparr>content = ''noop'', tokens = [FunctionIdBlock None ''noop'']\<rparr>
      example_kernel [Map.empty] 0) \<noteq> Inl (ArityMismatch (metadata noop_function) 0)"
    using no_parameters_arity_mismatch
            [of "\<lparr>content = ''noop'', tokens = [FunctionIdBlock None ''noop'']\<rparr>"
                _ _ _ _ example_kernel _ _ "[Map.empty]" 0 "metadata noop_function" 0]
    by simp
  from a b show ?thesis by blast
qed

text \<open>
  Claim C7. Rendering leaves every dictionary that was in the store before the call as
  it was, the caller's bindings among them, whether it succeeds or fails: the writes of
  the binder go to the clone, which is allocated behind them.
\<close>

theorem caller_bindings_unchanged:
  assumes "a < length h"
  shows "take (length h) (snd (render_code self krnl h a)) = h
         \<and> snd (render_code self krnl h a) ! a = h ! a"
  using assms render_code_store [of self krnl h a]
  by (auto simp: nth_append)

theorem caller_bindings_unchanged_witness:
  "snd (render_code \<lparr>content = ''add $x b=3'',
                      tokens = [FunctionIdBlock None ''add'', VarBlock ''x'',
                                NamedArgBlock ''b'' (InnerVal ''3'')]\<rparr>
          example_kernel [[''x'' \<mapsto> ''1'']] 0) ! 0 = [''x'' \<mapsto> ''1'']
   \<and> snd (render_code \<lparr>content = ''noop 1'', tokens = [FunctionIdBlock None ''noop'', ValBlock ''1'']\<rparr>
          example_kernel [[''x'' \<mapsto> ''1'']] 0) ! 0 = [''x'' \<mapsto> ''1'']
   \<and> (snd (render_code \<lparr>content = ''add $x b=3'',
                      tokens = [FunctionIdBlock None ''add'', VarBlock ''x'',
                                NamedArgBlock ''b'' (InnerVal ''3'')]\<rparr>
          example_kernel [[''x'' \<mapsto> ''1'']] 0) ! 1) ''a'' = Some ''1''"
proof -
  have len: "0 < length [[''x'' \<mapsto> ''1'']]"
    by simp
  have a: "snd (render_code \<lparr>content = ''add $x b=3'',
                      tokens = [FunctionIdBlock None ''add'', VarBlock ''x'',
                                NamedArgBlock ''b'' (InnerVal ''3'')]\<rparr>
          example_kernel [[''x'' \<mapsto> ''1'']] 0) ! 0 = [''x'' \<mapsto> ''1'']"
    using caller_bindings_unchanged [OF len] by simp
  have b: "snd (render_code \<lparr>content = ''noop 1'', tokens = [FunctionIdBlock None ''noop'', ValBlock ''1'']\<rparr>
          example_kernel [[''x'' \<mapsto> ''1'']] 0) ! 0 = [''x'' \<mapsto> ''1'']"
    using caller_bindings_unchanged [OF len] by simp
  have c: "(snd (render_code \<lparr>content = ''add $x b=3'',
                      tokens = [FunctionIdBlock None ''add'', VarBlock ''x'',
                                NamedArgBlock ''b'' (InnerVal ''3'')]\<rparr>
          example_kernel [[''x'' \<mapsto> ''1'']] 0) ! 1) ''a'' = Some ''1''"
    by (simp add: render_code_def render_function_call_def example_kernel_def
          get_function_from_plugin_collection_def add_function_def copy_def
          enrich_function_arguments_def Let_def)
  from a b c show ?thesis by blast
qed

text \<open>
  Claim C8. For every code block whose first token is a value or a variable, rendering
  returns the rendering of that token, whatever the other tokens, the kernel and the
  registry are: the content of a value, whatever the bindings, and the binding of a
  variable's name (the empty string when there is none). The block made from the tokens
  \<open>"hi"\<close>, \<open>$x\<close> renders to \<open>hi\<close>.
\<close>

theorem render_value_or_variable:
  assumes "tokens self = t # others" and "block_type t \<in> {VALUE, VARIABLE}"
  shows "render_code self krnl h a = (render_token t (h ! a), h)
         \<and> (t = ValBlock v \<longrightarrow> render_code self krnl h a = (Inr v, h))
         \<and> (t = VarBlock x \<longrightarrow>
              render_code self krnl h a = (Inr (case (h ! a) x of None \<Rightarrow> [] | Some s \<Rightarrow> s), h))"
  using assms by (auto simp: render_code_def)

theorem render_value_or_variable_witness:
  "new_code_block ''hi $x'' [ValBlock ''hi'', VarBlock ''x'']
     = Inr (\<lparr>content = ''hi $x'', tokens = [ValBlock ''hi'']\<rparr>, [TrailingTokensIgnored])
   \<and> render_code \<lparr>content = ''hi $x'', tokens = [ValBlock ''hi'']\<rparr> example_kernel
        [[''x'' \<mapsto> ''there'']] 0 = (Inr ''hi'', [[''x'' \<mapsto> ''there'']])
   \<and> render_code \<lparr>content = ''$x'', tokens = [VarBlock ''x'']\<rparr> example_kernel
        [[''x'' \<mapsto> ''there'']] 0 = (Inr ''there'', [[''x'' \<mapsto> ''there'']])
   \<and> render_code \<lparr>content = ''$y'', tokens = [VarBlock ''y'']\<rparr> example_kernel
        [[''x'' \<mapsto> ''there'']] 0 = (Inr '''', [[''x'' \<mapsto> ''there'']])"
proof -
  have p: "new_code_block ''hi $x'' [ValBlock ''hi'', VarBlock ''x'']
     = Inr (\<lparr>content = ''hi $x'', tokens = [ValBlock ''hi'']\<rparr>, [TrailingTokensIgnored])"
    by (simp add: new_code_block_def check_tokens_def)
  have a: "render_code \<lparr>content = ''hi $x'', tokens = [ValBlock ''hi'']\<rparr> example_kernel
        [[''x'' \<mapsto> ''there'']] 0 = (Inr ''hi'', [[''x'' \<mapsto> ''there'']])"
    using render_value_or_variable
            [of "\<lparr>content = ''hi $x'', tokens = [ValBlock ''hi'']\<rparr>" "ValBlock ''hi''" "[]"
                example_kernel "[[''x'' \<mapsto> ''there'']]" 0 "''hi''"]
    by simp
  have b: "render_code \<lparr>content = ''$x'', tokens = [VarBlock ''x'']\<rparr> example_kernel
        [[''x'' \<mapsto> ''there'']] 0 = (Inr ''there'', [[''x'' \<mapsto> ''there'']])"
    using render_value_or_variable
            [of "\<lparr>content = ''$x'', tokens = [VarBlock ''x'']\<rparr>" "VarBlock ''x''" "[]"
                example_kernel "[[''x'' \<mapsto> ''there'']]" 0 _ "''x''"]
    by simp
  have c: "render_code \<lparr>content = ''$y'', tokens = [VarBlock ''y'']\<rparr> example_kernel
        [[''x'' \<mapsto> ''there'']] 0 = (Inr '''', [[''x'' \<mapsto> ''there'']])"
    using render_value_or_variable
            [of "\<lparr>content = ''$y'', tokens = [VarBlock ''y'']\<rparr>" "VarBlock ''y''" "[]"
                example_kernel "[[''x'' \<mapsto> ''there'']]" 0 _ "''y''"]
    by simp
  from p a b c show ?thesis by blast
qed

text \<open>
  Claim C9. For every valid function-call expression whose function resolves and is
  invoked: when the result carries an embedded error, rendering fails with
  \<open>InvocationFailed\<close> of the descriptor and that error, and no string is returned; when it
  carries none, rendering returns the string form of the result, the empty string for an
  absent or empty result.
\<close>

theorem embedded_error_fails_render:
  assumes "check_tokens (FunctionIdBlock pn fn # extras) = Inr (ts, w)"
    and "plugins krnl = Some registry" and "registered registry \<noteq> []"
    and "get_function_from_plugin_collection registry pn fn = Inr (Some f)"
    and "extras = [] \<or> parameters (metadata f) \<noteq> []"
    and "a < length h"
    and "result = invoke f (bound_arguments (parameters (metadata f)) extras (h ! a))"
  shows "(\<forall>exc. embedded_error result = Some exc \<longrightarrow>
            fst (render_code \<lparr>content = c, tokens = ts\<rparr> krnl h a)
              = Inl (InvocationFailed (metadata f) exc))
         \<and> (embedded_error result = None \<longrightarrow>
            fst (render_code \<lparr>content = c, tokens = ts\<rparr> krnl h a)
              = Inr (case payload result of None \<Rightarrow> [] | Some s \<Rightarrow> s))"
  using render_function_call_valid [OF assms(1-6) refl, of c] assms(7)
  by simp

theorem embedded_error_fails_render_witness:
  "fst (render_code \<lparr>content = ''fail 1'', tokens = [FunctionIdBlock None ''fail'', ValBlock ''1'']\<rparr>
          example_kernel [Map.empty] 0)
     = Inl (InvocationFailed (metadata failing_function) (PyException ''boom''))
   \<and> fst (render_code \<lparr>content = ''silent'', tokens = [FunctionIdBlock None ''silent'']\<rparr>
          example_kernel [Map.empty] 0) = Inr []
   \<and> fst (render_code \<lparr>content = ''noop'', tokens = [FunctionIdBlock None ''noop'']\<rparr>
          example_kernel [Map.empty] 0) = Inr ''done''"
proof -
  have k: "plugins example_kernel = Some (the (plugins example_kernel))"
    and n: "registered (the (plugins example_kernel)) \<noteq> []"
    by (simp_all add: example_kernel_def)
  have a: "0 < length [Map.empty :: kernel_arguments]"
    by simp
  have v1: "check_tokens (FunctionIdBlock None ''fail'' # [ValBlock ''1''])
              = Inr ([FunctionIdBlock None ''fail'', ValBlock ''1''], [])"
    by (simp add: check_tokens_def VALID_ARG_TYPES_def)
  have g1: "get_function_from_plugin_collection (the (plugins example_kernel)) None ''fail''
              = Inr (Some failing_function)"
    by (simp add: example_kernel_def get_function_from_plugin_collection_def)
  have p1: "[ValBlock ''1''] = [] \<or> parameters (metadata failing_function) \<noteq> []"
    by (simp add: failing_function_def)
  have e1: "embedded_error (invoke failing_function
              (bound_arguments (parameters (metadata failing_function)) [ValBlock ''1'']
                 ([Map.empty] ! 0))) = Some (PyException ''boom'')"
    by (simp add: failing_function_def)
  have r1: "fst (render_code \<lparr>content = ''fail 1'', tokens = [FunctionIdBlock None ''fail'', ValBlock ''1'']\<rparr>
          example_kernel [Map.empty] 0)
     = Inl (InvocationFailed (metadata failing_function) (PyException ''boom''))"
    using embedded_error_fails_render [OF v1 k n g1 p1 a refl, of "''fail 1''"] e1
    by blast
  have v2: "check_tokens (FunctionIdBlock None ''silent'' # [])
              = Inr ([FunctionIdBlock None ''silent''], [])"
    by (simp add: check_tokens_def)
  have g2: "get_function_from_plugin_collection (the (plugins example_kernel)) None ''silent''
              = Inr (Some silent_function)"
    by (simp add: example_kernel_def get_function_from_plugin_collection_def)
  have r2: "fst (render_code \<lparr>content = ''silent'', tokens = [FunctionIdBlock None ''silent'']\<rparr>
          example_kernel [Map.empty] 0) = Inr []"
    using embedded_error_fails_render [OF v2 k n g2 _ a refl, of "''silent''"]
    by (simp add: silent_function_def)
  have v3: "check_tokens (FunctionIdBlock None ''noop'' # [])
              = Inr ([FunctionIdBlock None ''noop''], [])"
    by (simp add: check_tokens_def)
  have g3: "get_function_from_plugin_collection (the (plugins example_kernel)) None ''noop''
              = Inr (Some noop_function)"
    by (simp add: example_kernel_def get_function_from_plugin_collection_def)
  have r3: "fst (render_code \<lparr>content = ''noop'', tokens = [FunctionIdBlock None ''noop'']\<rparr>
          example_kernel [Map.empty] 0) = Inr ''done''"
    using embedded_error_fails_render [OF v3 k n g3 _ a refl, of "''noop''"]
    by (simp add: noop_function_def)
  from r1 r2 r3 show ?thesis by blast
qed

text \<open>
  Claim C10. For every code block whose first token is a value or a variable, rendering
  succeeds and its outcome is the same for every kernel, so also for an absent and for an
  empty registry: the registry is not consulted, and neither \<open>NoRegistry\<close> nor
  \<open>FunctionNotFound\<close> can arise.
\<close>

theorem render_without_registry:
  assumes "tokens self = t # others" and "block_type t \<in> {VALUE, VARIABLE}"
  shows "(\<exists>s. render_code self krnl h a = (Inr s, h))
         \<and> render_code self krnl h a = render_code self krnl' h a"
  using assms by (cases t) (auto simp: render_code_def)

theorem render_without_registry_witness:
  "(\<exists>s. render_code \<lparr>content = ''$x'', tokens = [VarBlock ''x'']\<rparr> \<lparr>plugins = None\<rparr>
          [[''x'' \<mapsto> ''there'']] 0 = (Inr s, [[''x'' \<mapsto> ''there'']]))
   \<and> render_code \<lparr>content = ''$x'', tokens = [VarBlock ''x'']\<rparr> \<lparr>plugins = None\<rparr>
          [[''x'' \<mapsto> ''there'']] 0
       = render_code \<lparr>content = ''$x'', tokens = [VarBlock ''x'']\<rparr> \<lparr>plugins = Some \<lparr>registered = [], on_absent = RaisesKeyError\<rparr>\<rparr>
          [[''x'' \<mapsto> ''there'']] 0"
proof -
  have 1: "tokens \<lparr>content = ''$x'', tokens = [VarBlock ''x'']\<rparr> = VarBlock ''x'' # []"
    by simp
  have 2: "block_type (VarBlock ''x'') \<in> {VALUE, VARIABLE}"
    by simp
  show ?thesis
    by (rule render_without_registry [OF 1 2])
qed

end
